theory Spec2Isabelle
  imports Main "HOL-Library.Multiset"
begin

section \<open>Python values\<close>

text \<open>
  The exceptions the notebook can raise. \<open>RequestException\<close> stands for whatever
  \<^verbatim>\<open>rq.get\<close> raises (connection errors, timeouts) with its text, \<open>HTTPError\<close> for what
  \<^verbatim>\<open>raise_for_status\<close> raises, with the status code. In \<^verbatim>\<open>requests\<close>, \<open>HTTPError\<close> is a
  subclass of \<open>RequestException\<close>; \<open>KeyError\<close> and \<open>IndexError\<close> are \<open>LookupError\<close>s,
  neither a \<open>ValueError\<close> nor a \<open>RequestException\<close>.
\<close>

datatype py_exception =
    RequestException string
  | HTTPError nat
  | ValueError string
  | KeyError string
  | IndexError
  | AttributeError string
  | ZeroDivisionError

fun is_RequestException :: "py_exception \<Rightarrow> bool" where
  "is_RequestException (RequestException m) = True"
| "is_RequestException (HTTPError c) = True"
| "is_RequestException e = False"

fun is_ValueError :: "py_exception \<Rightarrow> bool" where
  "is_ValueError (ValueError m) = True"
| "is_ValueError e = False"

text \<open>
  A Python subscript \<^verbatim>\<open>xs[i]\<close> on a list of length \<open>n\<close>: an index in \<open>0..n-1\<close> is used as
  it is, an index in \<open>-n..-1\<close> counts from the end, anything else raises \<open>IndexError\<close>
  (here \<open>None\<close>).
\<close>

definition py_index :: "nat \<Rightarrow> int \<Rightarrow> nat option" where
  "py_index n i =
     (if 0 \<le> i \<and> i < int n then Some (nat i)
      else if - int n \<le> i \<and> i < 0 then Some (nat (int n + i))
      else None)"

section \<open>Players\<close>

text \<open>
  \<^verbatim>\<open>Player\<close> has a name and a score that starts at 0. The game only ever builds
  \<^verbatim>\<open>ChildPlayer\<close> and \<^verbatim>\<open>AdultPlayer\<close> objects; the subclass is the field \<open>cls\<close>.
\<close>

datatype player_class = Child | Adult

record player =
  name :: string
  score :: int
  cls :: player_class

definition ChildPlayer :: "string \<Rightarrow> player" where
  "ChildPlayer n = \<lparr>name = n, score = 0, cls = Child\<rparr>"

definition AdultPlayer :: "string \<Rightarrow> player" where
  "AdultPlayer n = \<lparr>name = n, score = 0, cls = Adult\<rparr>"

fun DEFAULT_DIFFICULTY :: "player_class \<Rightarrow> string" where
  "DEFAULT_DIFFICULTY Child = ''easy''"
| "DEFAULT_DIFFICULTY Adult = ''medium''"

definition add_score :: "player \<Rightarrow> int \<Rightarrow> player" where
  "add_score p points = p\<lparr>score := score p + points\<rparr>"

section \<open>The leaderboard sort\<close>

text \<open>
  \<^verbatim>\<open>insertion_sort\<close> works in place on the list of players. The inner loop
  \<^verbatim>\<open>while j >= 0 and players[j].score < key.score: players[j + 1] = players[j]; j -= 1\<close>
  is \<open>while_shift\<close>: it returns the list and the final \<open>j\<close>. Every subscript goes
  through \<open>py_index\<close>, so an out-of-range access would show as \<open>Inl IndexError\<close>.
\<close>

function while_shift :: "player list \<Rightarrow> int \<Rightarrow> player \<Rightarrow> py_exception + (player list \<times> int)" where
  "while_shift players j key =
     (if j \<ge> 0 then
        (case py_index (length players) j of
           None \<Rightarrow> Inl IndexError
         | Some a \<Rightarrow>
             if score (players ! a) < score key then
               (case py_index (length players) (j + 1) of
                  None \<Rightarrow> Inl IndexError
                | Some b \<Rightarrow> while_shift (players[b := players ! a]) (j - 1) key)
             else Inr (players, j))
      else Inr (players, j))"
  by pat_completeness auto
termination
  by (relation "measure (\<lambda>(players, j, key). nat (j + 1))") auto

declare while_shift.simps [simp del]

text \<open>
  The body of the \<^verbatim>\<open>for\<close> loop at index \<open>i\<close>: read the key, shift, then
  \<^verbatim>\<open>players[j + 1] = key\<close>.
\<close>

definition insert_key :: "player list \<Rightarrow> int \<Rightarrow> player \<Rightarrow> py_exception + player list" where
  "insert_key players j key =
     (case while_shift players j key of
        Inl e \<Rightarrow> Inl e
      | Inr (players', j') \<Rightarrow>
          (case py_index (length players') (j' + 1) of
             None \<Rightarrow> Inl IndexError
           | Some b \<Rightarrow> Inr (players'[b := key])))"

definition loop_body :: "player list \<Rightarrow> nat \<Rightarrow> py_exception + player list" where
  "loop_body players i =
     (case py_index (length players) (int i) of
        None \<Rightarrow> Inl IndexError
      | Some a \<Rightarrow> insert_key players (int i - 1) (players ! a))"

text \<open>
  \<^verbatim>\<open>for i in range(1, len(players))\<close>: the range is computed once, before the first
  iteration.
\<close>

fun for_range :: "nat list \<Rightarrow> player list \<Rightarrow> py_exception + player list" where
  "for_range [] players = Inr players"
| "for_range (i # rest) players =
     (case loop_body players i of
        Inl e \<Rightarrow> Inl e
      | Inr players' \<Rightarrow> for_range rest players')"

definition insertion_sort :: "player list \<Rightarrow> py_exception + player list" where
  "insertion_sort players = for_range [1..<length players] players"

subsection \<open>Notions used to state what one insertion does\<close>

text \<open>
  Inserting \<open>key\<close> behind a prefix \<open>A\<close>: the key passes the longest run of strictly
  lower scores at the end of \<open>A\<close> and stops there.
\<close>

definition lower :: "player \<Rightarrow> player \<Rightarrow> bool" where
  "lower key p = (score p < score key)"

definition ins :: "player \<Rightarrow> player list \<Rightarrow> player list" where
  "ins key A = rev (dropWhile (lower key) (rev A)) @ key # rev (takeWhile (lower key) (rev A))"

definition by_score_desc :: "player list \<Rightarrow> bool" where
  "by_score_desc ps = sorted_wrt (\<lambda>p q. score q \<le> score p) ps"

definition with_score :: "int \<Rightarrow> player list \<Rightarrow> player list" where
  "with_score k ps = filter (\<lambda>p. score p = k) ps"

section \<open>Questions and the provider\<close>

record question =
  category :: string
  question_text :: string
  options :: "string list"
  correct_answer :: string

text \<open>
  The provider's JSON body after \<^verbatim>\<open>response.json()\<close>, taken as an object whose keys have
  the types of the provider's contract. The two top-level keys may be absent:
  \<^verbatim>\<open>.get('response_code')\<close> then gives \<^verbatim>\<open>None\<close>, and \<^verbatim>\<open>['results']\<close> raises \<open>KeyError\<close>.
\<close>

record api_result =
  api_category :: string
  api_question :: string
  api_correct_answer :: string
  api_incorrect_answers :: "string list"

record api_response =
  response_code :: "int option"
  results :: "api_result list option"

text \<open>
  \<^verbatim>\<open>random.shuffle(x)\<close> is the standard library's loop
  \<^verbatim>\<open>for i in reversed(range(1, len(x))): j = randbelow(i + 1); x[i], x[j] = x[j], x[i]\<close>.
  The random source is a parameter: \<open>rnd i\<close> is the draw at step \<open>i\<close>, reduced to
  \<open>0..i\<close>. Both subscripts are in range by construction.
\<close>

type_synonym randbelow = "nat \<Rightarrow> nat"

definition swap_step :: "randbelow \<Rightarrow> nat \<Rightarrow> 'a list \<Rightarrow> 'a list" where
  "swap_step rnd i x = (let j = rnd i mod (i + 1) in x[i := x ! j, j := x ! i])"

definition shuffle :: "randbelow \<Rightarrow> 'a list \<Rightarrow> 'a list" where
  "shuffle rnd x = fold (swap_step rnd) (rev [1..<length x]) x"

definition from_api_response :: "randbelow \<Rightarrow> api_response \<Rightarrow> py_exception + question" where
  "from_api_response rnd api_response =
     (case results api_response of
        None \<Rightarrow> Inl (KeyError ''results'')
      | Some rs \<Rightarrow>
          (case rs of
             [] \<Rightarrow> Inl IndexError
           | question_data # others \<Rightarrow>
               let opts = shuffle rnd (api_incorrect_answers question_data @ [api_correct_answer question_data])
               in Inr \<lparr>category = api_category question_data,
                        question_text = api_question question_data,
                        options = opts,
                        correct_answer = api_correct_answer question_data\<rparr>))"

text \<open>
  One request to the provider: the query parameters go out, and either \<^verbatim>\<open>rq.get\<close> raises
  or a response with a status code and a body comes back. An \<open>exchange\<close> is what the
  outside world does for one call of \<^verbatim>\<open>get_questions\<close>: the provider's answer to the
  request, and the draws of the shuffle.
\<close>

record request_params =
  p_difficulty :: string
  p_amount :: int
  p_category :: "int option"
  p_type :: string

datatype http_reply = GetRaises string | Response nat api_response

record exchange =
  provider :: "request_params \<Rightarrow> http_reply"
  draws :: randbelow

text \<open>\<open>Print t e\<close> is the line \<^verbatim>\<open>print(f"{t}{e}")\<close> on the notebook's output.\<close>

datatype printed = Print string py_exception

text \<open>The \<^verbatim>\<open>try\<close> block of \<^verbatim>\<open>get_questions\<close>; \<^verbatim>\<open>raise_for_status\<close> raises on 4xx and 5xx.\<close>

definition try_block :: "exchange \<Rightarrow> request_params \<Rightarrow> py_exception + question" where
  "try_block x params =
     (case provider x params of
        GetRaises m \<Rightarrow> Inl (RequestException m)
      | Response status question_data \<Rightarrow>
          if 400 \<le> status \<and> status < 600 then Inl (HTTPError status)
          else if response_code question_data \<noteq> Some 0
            then Inl (ValueError ''No questions available for the given parameters.'')
          else from_api_response (draws x) question_data)"

text \<open>
  \<^verbatim>\<open>get_questions\<close> returns what it printed and either the exception that escapes it or
  its return value: \<open>Some q\<close> for a \<^verbatim>\<open>Question\<close>, \<open>None\<close> for Python's \<^verbatim>\<open>None\<close>.
\<close>

definition get_questions ::
  "exchange \<Rightarrow> string \<Rightarrow> int \<Rightarrow> int option \<Rightarrow> string \<Rightarrow> printed list \<times> (py_exception + question option)" where
  "get_questions x difficulty amount category' type' =
     (case try_block x \<lparr>p_difficulty = difficulty, p_amount = amount, p_category = category', p_type = type'\<rparr> of
        Inr q \<Rightarrow> ([], Inr (Some q))
      | Inl e \<Rightarrow>
          if is_RequestException e then ([Print ''Error fetching questions: '' e], Inr None)
          else if is_ValueError e then ([Print ''Data error: '' e], Inr None)
          else ([], Inl e))"

section \<open>The game\<close>

record trivia_game =
  players :: "player list"
  round :: int

definition TriviaGame :: trivia_game where
  "TriviaGame = \<lparr>players = [], round = 1\<rparr>"

definition add_player :: "trivia_game \<Rightarrow> string \<Rightarrow> string \<Rightarrow> trivia_game" where
  "add_player g n player_type =
     (if player_type = ''child'' then g\<lparr>players := players g @ [ChildPlayer n]\<rparr>
      else if player_type = ''adult'' then g\<lparr>players := players g @ [AdultPlayer n]\<rparr>
      else g)"

section \<open>The turn logic of the GUI class\<close>

text \<open>
  The state is the attributes of \<^verbatim>\<open>TriviaGameGUI\<close> that the turn logic reads or
  writes, and the outside world: \<open>network\<close> holds the exchanges still to come, one per
  future call of \<^verbatim>\<open>get_questions\<close>; \<open>dialogs\<close> and \<open>stdout\<close> collect the message boxes
  shown and the lines printed. \<open>option_vars\<close> is \<open>None\<close> while the attribute is still
  the empty list of the constructor, and \<open>Some v\<close> once it is an \<^verbatim>\<open>IntVar\<close> holding \<open>v\<close>.
  Labels, radio buttons and the leaderboard text are display only and are left out, so
  \<^verbatim>\<open>update_leaderboard\<close> changes nothing here.
\<close>

datatype dialog = ShowInfo string string | ShowWarning string string

record trivia_game_gui =
  game :: trivia_game
  current_player_index :: int
  round_player_index :: int
  current_question :: "question option"
  option_vars :: "int option"
  network :: "exchange list"
  dialogs :: "dialog list"
  stdout :: "printed list"

text \<open>
  How a call ends: it returns, an exception leaves it, or the model has no exchange
  left for a request the code makes (\<open>Starved\<close>). The state comes with each of them:
  what was written before an exception stays written.
\<close>

datatype signal = Returned | Raised py_exception | Starved

definition fetch_error_text :: string where
  "fetch_error_text = ''There was an error fetching the question using the API. Please check your internet connection, or check the jupyter notebook output for a detailed error message''"

function ask_question :: "trivia_game_gui \<Rightarrow> signal \<times> trivia_game_gui"
  and next_player :: "trivia_game_gui \<Rightarrow> signal \<times> trivia_game_gui" where
  "ask_question s =
     (case py_index (length (players (game s))) (round_player_index s) of
        None \<Rightarrow> (Raised IndexError, s)
      | Some a \<Rightarrow>
          (case network s of
             [] \<Rightarrow> (Starved, s)
           | x # rest \<Rightarrow>
               (case get_questions x (DEFAULT_DIFFICULTY (cls (players (game s) ! a))) 1 None ''multiple'' of
                  (out, Inl e) \<Rightarrow> (Raised e, s\<lparr>network := rest, stdout := stdout s @ out\<rparr>)
                | (out, Inr (Some q)) \<Rightarrow>
                    (Returned, s\<lparr>current_question := Some q, option_vars := Some 0,
                                  network := rest, stdout := stdout s @ out\<rparr>)
                | (out, Inr None) \<Rightarrow>
                    next_player (s\<lparr>network := rest, stdout := stdout s @ out,
                                    dialogs := dialogs s @ [ShowInfo ''Trivia Game'' fetch_error_text]\<rparr>))))"
| "next_player s =
     (if length (players (game s)) = 0 then (Raised ZeroDivisionError, s)
      else
        let s1 = s\<lparr>round_player_index :=
                     (round_player_index s + 1) mod int (length (players (game s)))\<rparr>;
            s2 = (if round_player_index s1 = 0
                  then s1\<lparr>game := (game s1)\<lparr>round := round (game s1) + 1\<rparr>\<rparr>
                  else s1)
        in ask_question s2)"
  by pat_completeness auto
termination
  by (relation "measure (\<lambda>c. case c of Inl s \<Rightarrow> 2 * length (network s) + 1
                                        | Inr s \<Rightarrow> 2 * length (network s) + 2)") auto

declare ask_question.simps [simp del] next_player.simps [simp del]

text \<open>The constructor: first player, no question yet, then the first question is asked.\<close>

definition TriviaGameGUI :: "trivia_game \<Rightarrow> exchange list \<Rightarrow> signal \<times> trivia_game_gui" where
  "TriviaGameGUI g net =
     ask_question \<lparr>game = g, current_player_index = 0, round_player_index = 0,
                   current_question = None, option_vars = None,
                   network = net, dialogs = [], stdout = []\<rparr>"

text \<open>\<^verbatim>\<open>list.index\<close>: the first position of a value, \<open>None\<close> for its \<open>ValueError\<close>.\<close>

fun list_index :: "'a list \<Rightarrow> 'a \<Rightarrow> nat option" where
  "list_index [] v = None"
| "list_index (x # xs) v = (if x = v then Some 0 else map_option Suc (list_index xs v))"

text \<open>
  \<^verbatim>\<open>submit_answer\<close> reads the selection from \<open>option_vars\<close>. \<^verbatim>\<open>player.add_score(1)\<close>
  changes the object in slot \<open>a\<close> of the players list; \<^verbatim>\<open>add_player\<close> puts a fresh
  object in every slot, so no other slot shares it.
\<close>

definition submit_answer :: "trivia_game_gui \<Rightarrow> signal \<times> trivia_game_gui" where
  "submit_answer s =
     (case py_index (length (players (game s))) (round_player_index s) of
        None \<Rightarrow> (Raised IndexError, s)
      | Some a \<Rightarrow>
          (case option_vars s of
             None \<Rightarrow> (Raised (AttributeError ''get''), s)
           | Some selected_option \<Rightarrow>
               if selected_option = 0
               then (Returned, s\<lparr>dialogs := dialogs s @ [ShowWarning ''Error'' ''Please select an option.'']\<rparr>)
               else
                 (case current_question s of
                    None \<Rightarrow> (Raised (AttributeError ''current_question''), s)
                  | Some q \<Rightarrow>
                      (case py_index (length (options q)) (selected_option - 1) of
                         None \<Rightarrow> (Raised IndexError, s)
                       | Some c \<Rightarrow>
                           if options q ! c = correct_answer q
                           then next_player
                                  (s\<lparr>dialogs := dialogs s @ [ShowInfo ''Correct!'' ''You earned 1 point!''],
                                     game := (game s)\<lparr>players :=
                                       (players (game s))[a := add_score (players (game s) ! a) 1]\<rparr>\<rparr>)
                           else
                             (case list_index (options q) (correct_answer q) of
                                None \<Rightarrow> (Raised (ValueError ''not in list''), s)
                              | Some correct_idx \<Rightarrow>
                                  next_player
                                    (s\<lparr>dialogs := dialogs s @
                                         [ShowInfo ''Wrong!''
                                            (''The correct answer was: '' @ options q ! correct_idx @ ''.'')]\<rparr>))))))"

text \<open>
  The first two statements of \<^verbatim>\<open>next_player\<close> on their own: the turn step that the
  specification calls \<^verbatim>\<open>advance()\<close>. \<^verbatim>\<open>next_player\<close> is this step followed by
  \<^verbatim>\<open>ask_question\<close>, which on a failed fetch calls \<^verbatim>\<open>next_player\<close>, and so the step, again.
\<close>

definition advance :: "trivia_game_gui \<Rightarrow> trivia_game_gui" where
  "advance s =
     (let s1 = s\<lparr>round_player_index :=
                  (round_player_index s + 1) mod int (length (players (game s)))\<rparr>
      in if round_player_index s1 = 0
         then s1\<lparr>game := (game s1)\<lparr>round := round (game s1) + 1\<rparr>\<rparr>
         else s1)"

text \<open>
  An exchange fetches a question at a difficulty when \<^verbatim>\<open>get_questions\<close>, called as
  \<^verbatim>\<open>ask_question\<close> calls it, returns a \<^verbatim>\<open>Question\<close>.
\<close>

definition fetches_question :: "exchange \<Rightarrow> string \<Rightarrow> bool" where
  "fetches_question x difficulty =
     (case snd (get_questions x difficulty 1 None ''multiple'') of
        Inr (Some q) \<Rightarrow> True
      | Inr None \<Rightarrow> False
      | Inl e \<Rightarrow> False)"

text \<open>The invariant of the round state: the player index points into the players list.\<close>

definition index_in_range :: "trivia_game_gui \<Rightarrow> bool" where
  "index_in_range s =
     (0 \<le> round_player_index s \<and> round_player_index s < int (length (players (game s))))"

text \<open>
  \<^verbatim>\<open>ask_question\<close> builds one radio button per option, with the values \<open>1..len(options)\<close>,
  all bound to the fresh \<^verbatim>\<open>IntVar\<close>. A click on the button with value \<open>idx\<close> stores \<open>idx\<close>
  in it; that is the only writer of the selection besides \<^verbatim>\<open>ask_question\<close> itself.
  Without a question on display there are no buttons to click.
\<close>

definition select_option :: "trivia_game_gui \<Rightarrow> nat \<Rightarrow> trivia_game_gui" where
  "select_option s idx =
     (case current_question s of
        None \<Rightarrow> s
      | Some q \<Rightarrow>
          (case option_vars s of
             None \<Rightarrow> s
           | Some v \<Rightarrow>
               if 1 \<le> idx \<and> idx \<le> length (options q) then s\<lparr>option_vars := Some (int idx)\<rparr> else s))"

text \<open>
  The invariant of the selection: a question is on display and the \<^verbatim>\<open>IntVar\<close> holds 0
  (nothing selected) or the value of one of its radio buttons.
\<close>

definition selection_offered :: "trivia_game_gui \<Rightarrow> bool" where
  "selection_offered s =
     (case current_question s of
        None \<Rightarrow> False
      | Some q \<Rightarrow>
          (case option_vars s of
             None \<Rightarrow> False
           | Some v \<Rightarrow> 0 \<le> v \<and> v \<le> int (length (options q))))"

section \<open>Sample data\<close>

text \<open>
  Concrete inputs for the examples below: a provider that answers every request with
  one question, a provider whose connection fails, and a table of three players with
  a question on display.
\<close>

definition sample_record :: api_result where
  "sample_record = \<lparr>api_category = ''Science'', api_question = ''2 + 2?'',
                     api_correct_answer = ''4'', api_incorrect_answers = [''3'', ''5'', ''22'']\<rparr>"

definition sample_question :: question where
  "sample_question = \<lparr>category = ''Science'', question_text = ''2 + 2?'',
                       options = [''5'', ''22'', ''4'', ''3''], correct_answer = ''4''\<rparr>"

definition answering :: exchange where
  "answering = \<lparr>provider = (\<lambda>p. Response 200 \<lparr>response_code = Some 0, results = Some [sample_record]\<rparr>),
                 draws = (\<lambda>i. 0)\<rparr>"

definition refusing :: exchange where
  "refusing = \<lparr>provider = (\<lambda>p. GetRaises ''connection refused''), draws = (\<lambda>i. 0)\<rparr>"

definition three_players :: "int \<Rightarrow> exchange list \<Rightarrow> trivia_game_gui" where
  "three_players selected net =
     \<lparr>game = \<lparr>players = [AdultPlayer ''Alice'', AdultPlayer ''Bob'', ChildPlayer ''Carol''], round = 1\<rparr>,
      current_player_index = 0, round_player_index = 0,
      current_question = Some sample_question, option_vars = Some selected,
      network = net, dialogs = [], stdout = []\<rparr>"

section \<open>Properties of one insertion\<close>

lemma ins_Nil: "ins key [] = [key]"
  by (simp add: ins_def)

lemma ins_snoc:
  "ins key (A @ [x]) = (if score x < score key then ins key A @ [x] else A @ [x, key])"
  by (simp add: ins_def lower_def)

lemma mset_ins: "mset (ins key A) = add_mset key (mset A)"
  by (induction A rule: rev_induct) (simp_all add: ins_Nil ins_snoc)

lemma length_ins: "length (ins key A) = Suc (length A)"
  by (induction A rule: rev_induct) (simp_all add: ins_Nil ins_snoc)

lemma set_ins: "set (ins key A) = insert key (set A)"
  by (induction A rule: rev_induct) (auto simp add: ins_Nil ins_snoc)

lemma with_score_ins: "with_score k (ins key A) = with_score k (A @ [key])"
  by (induction A rule: rev_induct) (auto simp add: ins_Nil ins_snoc with_score_def)

lemma by_score_desc_snoc:
  "by_score_desc (A @ [x]) = (by_score_desc A \<and> (\<forall>p \<in> set A. score x \<le> score p))"
  by (auto simp add: by_score_desc_def sorted_wrt_append)

lemma by_score_desc_ins: "by_score_desc A \<Longrightarrow> by_score_desc (ins key A)"
proof (induction A rule: rev_induct)
  case Nil
  then show ?case by (simp add: ins_Nil by_score_desc_def)
next
  case (snoc x A)
  show ?case
  proof (cases "score x < score key")
    case True
    from snoc.prems have A: "by_score_desc A" and x: "\<forall>p \<in> set A. score x \<le> score p"
      by (simp_all add: by_score_desc_snoc)
    from A have "by_score_desc (ins key A)" by (rule snoc.IH)
    with x True show ?thesis
      by (auto simp add: ins_snoc by_score_desc_snoc set_ins)
  next
    case False
    with snoc.prems show ?thesis
      by (fastforce simp add: ins_snoc by_score_desc_def sorted_wrt_append)
  qed
qed

section \<open>The sort, loop by loop\<close>

lemma py_index_nat: "i < n \<Longrightarrow> py_index n (int i) = Some i"
  by (simp add: py_index_def)

lemma while_shift_neg: "j < 0 \<Longrightarrow> while_shift ps j key = Inr (ps, j)"
  by (subst while_shift.simps) simp

lemma while_shift_stop:
  "i < length ps \<Longrightarrow> \<not> score (ps ! i) < score key \<Longrightarrow> while_shift ps (int i) key = Inr (ps, int i)"
  by (subst while_shift.simps) (simp add: py_index_nat)

lemma while_shift_step:
  assumes "Suc i < length ps" and "score (ps ! i) < score key"
  shows "while_shift ps (int i) key = while_shift (ps[Suc i := ps ! i]) (int i - 1) key"
proof -
  have a: "py_index (length ps) (int i) = Some i"
    using assms(1) by (simp add: py_index_nat)
  have b: "py_index (length ps) (int i + 1) = Some (Suc i)"
    using assms(1) py_index_nat [of "Suc i" "length ps"] by (simp add: add.commute)
  show ?thesis
    by (subst while_shift.simps) (simp add: a b assms(2))
qed

text \<open>
  With the key's slot \<open>h\<close> right behind the prefix \<open>A\<close>, the inner loop and the final
  assignment put the key where \<open>ins\<close> puts it, and touch nothing behind the slot.
\<close>

lemma insert_key_ins:
  "int (length A) = j + 1 \<Longrightarrow> insert_key (A @ h # B) j key = Inr (ins key A @ B)"
proof (induction A arbitrary: j h B rule: rev_induct)
  case Nil
  then have j: "j = -1" by simp
  show ?case
    by (simp add: j insert_key_def while_shift_neg py_index_def ins_Nil)
next
  case (snoc x A)
  then have j: "j = int (length A)" by simp
  have nth: "(A @ x # h # B) ! length A = x"
    by (simp add: nth_append)
  show ?case
  proof (cases "score x < score key")
    case True
    have "while_shift (A @ x # h # B) (int (length A)) key
        = while_shift ((A @ x # h # B)[Suc (length A) := (A @ x # h # B) ! length A]) (int (length A) - 1) key"
      by (rule while_shift_step) (simp_all add: nth True)
    also have "(A @ x # h # B)[Suc (length A) := (A @ x # h # B) ! length A] = A @ x # (x # B)"
      by (simp add: nth list_update_append)
    finally have "insert_key (A @ x # h # B) j key = insert_key (A @ x # (x # B)) (j - 1) key"
      by (simp add: insert_key_def j)
    also have "\<dots> = Inr (ins key A @ (x # B))"
      by (rule snoc.IH) (simp add: j)
    finally show ?thesis using True by (simp add: ins_snoc)
  next
    case False
    have "while_shift (A @ x # h # B) (int (length A)) key = Inr (A @ x # h # B, int (length A))"
      by (rule while_shift_stop) (simp_all add: nth False)
    then have "insert_key (A @ x # h # B) j key = Inr ((A @ x # h # B)[Suc (length A) := key])"
      using py_index_nat [of "Suc (length A)" "length (A @ x # h # B)"]
      by (simp add: insert_key_def j add.commute)
    then show ?thesis using False by (simp add: ins_snoc list_update_append)
  qed
qed

lemma loop_body_ins:
  assumes "i < length ps"
  shows "loop_body ps i = Inr (ins (ps ! i) (take i ps) @ drop (Suc i) ps)"
proof -
  have split: "ps = take i ps @ ps ! i # drop (Suc i) ps"
    using assms by (rule id_take_nth_drop)
  have "insert_key (take i ps @ ps ! i # drop (Suc i) ps) (int i - 1) (ps ! i)
      = Inr (ins (ps ! i) (take i ps) @ drop (Suc i) ps)"
    by (rule insert_key_ins) (use assms in simp)
  with split have "insert_key ps (int i - 1) (ps ! i) = Inr (ins (ps ! i) (take i ps) @ drop (Suc i) ps)"
    by simp
  then show ?thesis
    using assms by (simp add: loop_body_def py_index_nat)
qed

lemma loop_body_props:
  assumes i: "i < length ps"
  defines "out \<equiv> ins (ps ! i) (take i ps) @ drop (Suc i) ps"
  shows "loop_body ps i = Inr out"
    and "length out = length ps"
    and "mset out = mset ps"
    and "with_score k out = with_score k ps"
    and "by_score_desc (take i ps) \<Longrightarrow> by_score_desc (take (Suc i) out)"
proof -
  have split: "ps = take i ps @ ps ! i # drop (Suc i) ps"
    using i by (rule id_take_nth_drop)
  show "loop_body ps i = Inr out"
    unfolding out_def using i by (rule loop_body_ins)
  show "length out = length ps"
    using i by (simp add: out_def length_ins)
  have "mset out = mset (take i ps @ ps ! i # drop (Suc i) ps)"
    by (simp add: out_def mset_ins)
  with split show "mset out = mset ps" by simp
  have "with_score k out = with_score k (take i ps @ ps ! i # drop (Suc i) ps)"
    using with_score_ins [of k "ps ! i" "take i ps"] by (simp add: out_def with_score_def)
  with split show "with_score k out = with_score k ps" by simp
  have "take (Suc i) out = ins (ps ! i) (take i ps)"
    using i by (simp add: out_def length_ins)
  then show "by_score_desc (take i ps) \<Longrightarrow> by_score_desc (take (Suc i) out)"
    by (simp add: by_score_desc_ins)
qed

lemma for_range_upt:
  assumes "i \<le> length ps"
  shows "\<exists>out. for_range [i..<length ps] ps = Inr out \<and> length out = length ps \<and>
           mset out = mset ps \<and> (\<forall>k. with_score k out = with_score k ps) \<and>
           (by_score_desc (take i ps) \<longrightarrow> by_score_desc out)"
  using assms
proof (induction "length ps - i" arbitrary: i ps)
  case 0
  then have "i = length ps" by simp
  then show ?case by simp
next
  case (Suc d)
  then have i: "i < length ps" by simp
  define mid where "mid = ins (ps ! i) (take i ps) @ drop (Suc i) ps"
  note step = loop_body_props [OF i, folded mid_def]
  have len: "length mid = length ps" by (rule step(2))
  have "d = length mid - Suc i" using Suc.hyps(2) len by simp
  moreover have "Suc i \<le> length mid" using i len by simp
  ultimately obtain out where out:
    "for_range [Suc i..<length mid] mid = Inr out" "length out = length mid"
    "mset out = mset mid" "\<forall>k. with_score k out = with_score k mid"
    "by_score_desc (take (Suc i) mid) \<longrightarrow> by_score_desc out"
    using Suc.hyps(1) [of mid "Suc i"] by blast
  have "for_range [i..<length ps] ps = Inr out"
    using i out(1) step(1) len by (simp add: upt_conv_Cons)
  moreover have "by_score_desc (take i ps) \<longrightarrow> by_score_desc out"
    using out(5) step(5) by blast
  ultimately show ?case
    using out(2,3,4) step(2,3,4) by auto
qed

lemma insertion_sort_props:
  "\<exists>out. insertion_sort ps = Inr out \<and> mset out = mset ps \<and>
         (\<forall>k. with_score k out = with_score k ps) \<and> by_score_desc out"
proof (cases ps)
  case Nil
  then show ?thesis by (simp add: insertion_sort_def with_score_def by_score_desc_def)
next
  case (Cons p rest)
  then have "1 \<le> length ps" and "by_score_desc (take 1 ps)"
    by (simp_all add: by_score_desc_def)
  with for_range_upt [of 1 ps] show ?thesis
    by (auto simp add: insertion_sort_def)
qed

text \<open>
  Claim C1. For every list of players \<^verbatim>\<open>insertion_sort\<close> returns (no exception) a list
  in descending order of score: no player stands before one with a strictly greater
  score. It is stable: for every score \<open>k\<close>, the players with score \<open>k\<close> stand in the
  output in the order they had in the input.
\<close>

theorem insertion_sort_descending_stable:
  "\<exists>out. insertion_sort ps = Inr out \<and>
         sorted_wrt (\<lambda>p q. score q \<le> score p) out \<and>
         (\<forall>k. filter (\<lambda>p. score p = k) out = filter (\<lambda>p. score p = k) ps)"
  using insertion_sort_props [of ps] by (auto simp add: by_score_desc_def with_score_def)

text \<open>
  Claim C8. For every list of players the output of \<^verbatim>\<open>insertion_sort\<close> is a
  permutation of the input: the two lists have the same multiset of players.
\<close>

theorem insertion_sort_permutation:
  "\<exists>out. insertion_sort ps = Inr out \<and> mset out = mset ps"
  using insertion_sort_props [of ps] by blast

text \<open>The scenario of the specification: Alice 3, Bob 5, Carol 3.\<close>

lemma insertion_sort_scenario:
  "insertion_sort
     [\<lparr>name = ''Alice'', score = 3, cls = Adult\<rparr>,
      \<lparr>name = ''Bob'', score = 5, cls = Adult\<rparr>,
      \<lparr>name = ''Carol'', score = 3, cls = Child\<rparr>]
   = Inr [\<lparr>name = ''Bob'', score = 5, cls = Adult\<rparr>,
          \<lparr>name = ''Alice'', score = 3, cls = Adult\<rparr>,
          \<lparr>name = ''Carol'', score = 3, cls = Child\<rparr>]"
  by (simp add: insertion_sort_def upt_rec loop_body_ins ins_def lower_def)

section \<open>Building a question\<close>

lemma swap_step_props:
  assumes "i < length x"
  shows "length (swap_step rnd i x) = length x" and "mset (swap_step rnd i x) = mset x"
proof -
  have j: "rnd i mod (i + 1) < length x"
    using assms by (simp add: less_le_trans [OF mod_less_divisor])
  show "length (swap_step rnd i x) = length x"
    by (simp add: swap_step_def Let_def)
  show "mset (swap_step rnd i x) = mset x"
    using mset_swap [OF j assms] by (simp add: swap_step_def Let_def)
qed

lemma fold_swap_step_props:
  "\<forall>i \<in> set steps. i < length x \<Longrightarrow>
     length (fold (swap_step rnd) steps x) = length x \<and> mset (fold (swap_step rnd) steps x) = mset x"
  by (induction steps arbitrary: x) (simp_all add: swap_step_props)

lemma mset_shuffle: "mset (shuffle rnd x) = mset x"
  using fold_swap_step_props [of "rev [1..<length x]" x rnd] by (simp add: shuffle_def)

lemma from_api_response_Inr:
  assumes "from_api_response rnd r = Inr q"
  shows "\<exists>d rest. results r = Some (d # rest) \<and>
           category q = api_category d \<and> question_text q = api_question d \<and>
           correct_answer q = api_correct_answer d \<and>
           mset (options q) = mset (api_incorrect_answers d @ [api_correct_answer d])"
  using assms
  by (auto simp add: from_api_response_def Let_def mset_shuffle split: option.splits list.splits)

lemma from_api_response_total:
  "results r = Some (d # rest) \<Longrightarrow> \<exists>q. from_api_response rnd r = Inr q"
  by (simp add: from_api_response_def Let_def)

text \<open>
  Claim C3. Whenever \<^verbatim>\<open>from_api_response\<close> builds a question from a provider response,
  whatever the shuffle draws, the question's correct answer is the first record's
  \<^verbatim>\<open>correct_answer\<close> string, it is one of the options, there is one option more than
  there are incorrect answers, and the options are a permutation of the incorrect
  answers plus the correct one. A question is built whenever the response has a first
  record.
\<close>

theorem from_api_response_membership:
  "(from_api_response rnd r = Inr q \<longrightarrow>
      (\<exists>d rest. results r = Some (d # rest) \<and>
         correct_answer q = api_correct_answer d \<and>
         correct_answer q \<in> set (options q) \<and>
         length (options q) = length (api_incorrect_answers d) + 1 \<and>
         mset (options q) = mset (api_incorrect_answers d) + {#api_correct_answer d#}))
   \<and> (results r = Some (d' # rest') \<longrightarrow> (\<exists>q'. from_api_response rnd r = Inr q'))"
proof (intro conjI impI)
  assume built: "from_api_response rnd r = Inr q"
  from from_api_response_Inr [OF built] obtain d rest where d:
    "results r = Some (d # rest)" "correct_answer q = api_correct_answer d"
    "mset (options q) = mset (api_incorrect_answers d @ [api_correct_answer d])"
    by blast
  from d(3) have "set (options q) = set (api_incorrect_answers d @ [api_correct_answer d])"
    by (rule mset_eq_setD)
  moreover from d(3) have "length (options q) = length (api_incorrect_answers d @ [api_correct_answer d])"
    by (rule mset_eq_length)
  ultimately show "\<exists>d rest. results r = Some (d # rest) \<and>
         correct_answer q = api_correct_answer d \<and>
         correct_answer q \<in> set (options q) \<and>
         length (options q) = length (api_incorrect_answers d) + 1 \<and>
         mset (options q) = mset (api_incorrect_answers d) + {#api_correct_answer d#}"
    using d by auto
next
  assume "results r = Some (d' # rest')"
  then show "\<exists>q'. from_api_response rnd r = Inr q'"
    by (rule from_api_response_total)
qed

lemma shuffle_zero4: "shuffle (\<lambda>i. 0) [a, b, c, d] = [b, c, d, a]"
  by (simp add: shuffle_def swap_step_def upt_rec)

theorem from_api_response_membership_witness:
  "from_api_response (\<lambda>i. 0)
      \<lparr>response_code = Some 0,
       results = Some [\<lparr>api_category = ''Science'', api_question = ''2 + 2?'',
                        api_correct_answer = ''4'', api_incorrect_answers = [''3'', ''5'', ''22'']\<rparr>]\<rparr>
    = Inr \<lparr>category = ''Science'', question_text = ''2 + 2?'',
           options = [''5'', ''22'', ''4'', ''3''], correct_answer = ''4''\<rparr>
   \<and> ''4'' \<in> set [''5'', ''22'', ''4'', ''3'']
   \<and> length [''5'', ''22'', ''4'', ''3''] = length [''3'', ''5'', ''22''] + 1"
proof -
  let ?r = "\<lparr>response_code = Some 0,
       results = Some [\<lparr>api_category = ''Science'', api_question = ''2 + 2?'',
                        api_correct_answer = ''4'', api_incorrect_answers = [''3'', ''5'', ''22'']\<rparr>]\<rparr>"
  let ?q = "\<lparr>category = ''Science'', question_text = ''2 + 2?'',
           options = [''5'', ''22'', ''4'', ''3''], correct_answer = ''4''\<rparr>"
  have h: "from_api_response (\<lambda>i. 0) ?r = Inr ?q"
    by (simp add: from_api_response_def shuffle_zero4)
  from from_api_response_membership [of "\<lambda>i. 0" ?r ?q] h show ?thesis by simp
qed

text \<open>
  Claim C9 as stated fails: nothing removes duplicates. A response whose incorrect
  answers repeat a string gives a question whose options repeat it.
\<close>

theorem from_api_response_duplicate_options:
  "from_api_response (\<lambda>i. 0)
      \<lparr>response_code = Some 0,
       results = Some [\<lparr>api_category = ''Science'', api_question = ''2 + 2?'',
                        api_correct_answer = ''4'', api_incorrect_answers = [''3'', ''3'', ''5'']\<rparr>]\<rparr>
    = Inr \<lparr>category = ''Science'', question_text = ''2 + 2?'',
           options = [''3'', ''5'', ''4'', ''3''], correct_answer = ''4''\<rparr>
   \<and> \<not> distinct [''3'', ''5'', ''4'', ''3'']"
  by (simp add: from_api_response_def shuffle_zero4)

text \<open>
  Claim C9, amended. The options of a question built by \<^verbatim>\<open>from_api_response\<close> are
  pairwise distinct exactly when the provider's incorrect answers are pairwise distinct
  and the correct answer is not among them.
\<close>

theorem from_api_response_distinct_iff:
  assumes "from_api_response rnd r = Inr q" and "results r = Some (d # rest)"
  shows "distinct (options q) =
           (distinct (api_incorrect_answers d) \<and> api_correct_answer d \<notin> set (api_incorrect_answers d))"
proof -
  from from_api_response_Inr [OF assms(1)] assms(2)
  have "mset (options q) = mset (api_incorrect_answers d @ [api_correct_answer d])"
    by auto
  then have "distinct (options q) = distinct (api_incorrect_answers d @ [api_correct_answer d])"
    by (rule mset_eq_imp_distinct_iff)
  then show ?thesis by auto
qed

theorem from_api_response_distinct_iff_witness:
  "distinct (options \<lparr>category = ''Science'', question_text = ''2 + 2?'',
           options = [''5'', ''22'', ''4'', ''3''], correct_answer = ''4''\<rparr>)
   \<and> distinct [''3'', ''5'', ''22''] \<and> ''4'' \<notin> set [''3'', ''5'', ''22'']"
proof -
  let ?d = "\<lparr>api_category = ''Science'', api_question = ''2 + 2?'',
                        api_correct_answer = ''4'', api_incorrect_answers = [''3'', ''5'', ''22'']\<rparr>"
  let ?r = "\<lparr>response_code = Some 0, results = Some [?d]\<rparr>"
  let ?q = "\<lparr>category = ''Science'', question_text = ''2 + 2?'',
           options = [''5'', ''22'', ''4'', ''3''], correct_answer = ''4''\<rparr>"
  have h: "from_api_response (\<lambda>i. 0) ?r = Inr ?q"
    by (simp add: from_api_response_def shuffle_zero4)
  have r: "results ?r = Some (?d # [])" by simp
  from from_api_response_distinct_iff [OF h r] show ?thesis by simp
qed

section \<open>Fetching a question\<close>

lemma get_questions_GetRaises:
  "provider x \<lparr>p_difficulty = d, p_amount = a, p_category = c, p_type = t\<rparr> = GetRaises m \<Longrightarrow>
   get_questions x d a c t = ([Print ''Error fetching questions: '' (RequestException m)], Inr None)"
  by (simp add: get_questions_def try_block_def)

lemma get_questions_HTTPError:
  "provider x \<lparr>p_difficulty = d, p_amount = a, p_category = c, p_type = t\<rparr> = Response status body \<Longrightarrow>
   400 \<le> status \<Longrightarrow> status < 600 \<Longrightarrow>
   get_questions x d a c t = ([Print ''Error fetching questions: '' (HTTPError status)], Inr None)"
  by (simp add: get_questions_def try_block_def)

lemma get_questions_response_code:
  "provider x \<lparr>p_difficulty = d, p_amount = a, p_category = c, p_type = t\<rparr> = Response status body \<Longrightarrow>
   \<not> (400 \<le> status \<and> status < 600) \<Longrightarrow> response_code body \<noteq> Some 0 \<Longrightarrow>
   get_questions x d a c t =
     ([Print ''Data error: '' (ValueError ''No questions available for the given parameters.'')], Inr None)"
  by (simp add: get_questions_def try_block_def)

lemma get_questions_from_api_response:
  "provider x \<lparr>p_difficulty = d, p_amount = a, p_category = c, p_type = t\<rparr> = Response status body \<Longrightarrow>
   \<not> (400 \<le> status \<and> status < 600) \<Longrightarrow> response_code body = Some 0 \<Longrightarrow>
   get_questions x d a c t =
     (case from_api_response (draws x) body of
        Inr q \<Rightarrow> ([], Inr (Some q))
      | Inl e \<Rightarrow> ([], Inl e))"
  by (auto simp add: get_questions_def try_block_def from_api_response_def Let_def
      split: option.splits list.splits)

text \<open>
  Claim C5, amended. On a failure of the transport (\<^verbatim>\<open>rq.get\<close> raises, or the status is
  4xx or 5xx) \<^verbatim>\<open>get_questions\<close> prints a line starting \<^verbatim>\<open>Error fetching questions:\<close> and
  returns \<^verbatim>\<open>None\<close>; on a response with any other status whose \<^verbatim>\<open>response_code\<close> is not 0
  it prints a line starting \<^verbatim>\<open>Data error:\<close> and returns \<^verbatim>\<open>None\<close>. The returned value is
  the same in both modes; only the printed line tells them apart.
\<close>

theorem get_questions_failures_return_None:
  "(provider x \<lparr>p_difficulty = d, p_amount = a, p_category = c, p_type = t\<rparr> = GetRaises m \<longrightarrow>
      get_questions x d a c t = ([Print ''Error fetching questions: '' (RequestException m)], Inr None))
   \<and> (provider x \<lparr>p_difficulty = d, p_amount = a, p_category = c, p_type = t\<rparr> = Response status body \<and>
        400 \<le> status \<and> status < 600 \<longrightarrow>
      get_questions x d a c t = ([Print ''Error fetching questions: '' (HTTPError status)], Inr None))
   \<and> (provider x \<lparr>p_difficulty = d, p_amount = a, p_category = c, p_type = t\<rparr> = Response status body \<and>
        \<not> (400 \<le> status \<and> status < 600) \<and> response_code body \<noteq> Some 0 \<longrightarrow>
      get_questions x d a c t =
        ([Print ''Data error: '' (ValueError ''No questions available for the given parameters.'')], Inr None))"
  using get_questions_GetRaises get_questions_HTTPError get_questions_response_code by blast

text \<open>
  Claim C5 as stated fails: a refused connection and a body with \<^verbatim>\<open>response_code\<close> 1
  give the caller the same value, \<^verbatim>\<open>None\<close>.
\<close>

theorem get_questions_failures_same_return:
  "snd (get_questions \<lparr>provider = (\<lambda>p. GetRaises ''connection refused''), draws = (\<lambda>i. 0)\<rparr>
          ''easy'' 1 None ''multiple'') = Inr None
   \<and> snd (get_questions \<lparr>provider = (\<lambda>p. Response 200 \<lparr>response_code = Some 1, results = Some []\<rparr>),
                           draws = (\<lambda>i. 0)\<rparr>
          ''easy'' 1 None ''multiple'') = Inr None"
  by (simp add: get_questions_def try_block_def)

theorem get_questions_failures_return_None_witness:
  "get_questions \<lparr>provider = (\<lambda>p. GetRaises ''connection refused''), draws = (\<lambda>i. 0)\<rparr>
      ''easy'' 1 None ''multiple''
     = ([Print ''Error fetching questions: '' (RequestException ''connection refused'')], Inr None)
   \<and> get_questions \<lparr>provider = (\<lambda>p. Response 429 \<lparr>response_code = None, results = None\<rparr>), draws = (\<lambda>i. 0)\<rparr>
      ''easy'' 1 None ''multiple''
     = ([Print ''Error fetching questions: '' (HTTPError 429)], Inr None)
   \<and> get_questions \<lparr>provider = (\<lambda>p. Response 200 \<lparr>response_code = Some 1, results = Some []\<rparr>), draws = (\<lambda>i. 0)\<rparr>
      ''easy'' 1 None ''multiple''
     = ([Print ''Data error: '' (ValueError ''No questions available for the given parameters.'')], Inr None)"
proof -
  let ?x1 = "\<lparr>provider = (\<lambda>p. GetRaises ''connection refused''), draws = (\<lambda>i. 0)\<rparr>"
  let ?x2 = "\<lparr>provider = (\<lambda>p. Response 429 \<lparr>response_code = None, results = None\<rparr>), draws = (\<lambda>i. 0)\<rparr>"
  let ?x3 = "\<lparr>provider = (\<lambda>p. Response 200 \<lparr>response_code = Some 1, results = Some []\<rparr>), draws = (\<lambda>i. 0)\<rparr>"
  show ?thesis
    using get_questions_failures_return_None [of ?x1 "''easy''" 1 None "''multiple''" "''connection refused''"]
      get_questions_failures_return_None [of ?x2 "''easy''" 1 None "''multiple''" _ 429 "\<lparr>response_code = None, results = None\<rparr>"]
      get_questions_failures_return_None [of ?x3 "''easy''" 1 None "''multiple''" _ 200 "\<lparr>response_code = Some 1, results = Some []\<rparr>"]
    by simp
qed

text \<open>
  Claim C6 at its failing inputs. A 200 response with \<^verbatim>\<open>response_code\<close> 0 and no
  \<^verbatim>\<open>results\<close> key makes \<^verbatim>\<open>from_api_response\<close> raise \<open>KeyError\<close>, and one with an empty
  \<^verbatim>\<open>results\<close> list \<open>IndexError\<close>; neither \<^verbatim>\<open>except\<close> clause of \<^verbatim>\<open>get_questions\<close>
  catches them, so they reach the caller.
\<close>

theorem get_questions_lets_lookup_errors_escape:
  "get_questions \<lparr>provider = (\<lambda>p. Response 200 \<lparr>response_code = Some 0, results = None\<rparr>), draws = (\<lambda>i. 0)\<rparr>
      ''easy'' 1 None ''multiple'' = ([], Inl (KeyError ''results''))
   \<and> get_questions \<lparr>provider = (\<lambda>p. Response 200 \<lparr>response_code = Some 0, results = Some []\<rparr>), draws = (\<lambda>i. 0)\<rparr>
      ''easy'' 1 None ''multiple'' = ([], Inl IndexError)"
  by (simp add: get_questions_def try_block_def from_api_response_def)

section \<open>Adding players\<close>

text \<open>
  Claim C10. For a player type other than \<^verbatim>\<open>"child"\<close> and \<^verbatim>\<open>"adult"\<close>, \<^verbatim>\<open>add_player\<close>
  returns the game as it was: same players, same round. It has no error path.
\<close>

theorem add_player_invalid_type:
  assumes "player_type \<noteq> ''child''" and "player_type \<noteq> ''adult''"
  shows "add_player g n player_type = g"
  using assms by (simp add: add_player_def)

theorem add_player_invalid_type_witness:
  "add_player \<lparr>players = [ChildPlayer ''Ann''], round = 1\<rparr> ''Bo'' ''teen''
     = \<lparr>players = [ChildPlayer ''Ann''], round = 1\<rparr>"
proof -
  have "''teen'' \<noteq> ''child''" and "''teen'' \<noteq> ''adult''" by simp_all
  then show ?thesis by (rule add_player_invalid_type)
qed

section \<open>Turns\<close>

lemma ask_question_Some:
  assumes "py_index (length (players (game s))) (round_player_index s) = Some a"
    and "network s = x # rest"
    and "get_questions x (DEFAULT_DIFFICULTY (cls (players (game s) ! a))) 1 None ''multiple'' = (out, Inr (Some q))"
  shows "ask_question s =
           (Returned, s\<lparr>current_question := Some q, option_vars := Some 0,
                         network := rest, stdout := stdout s @ out\<rparr>)"
  by (subst ask_question.simps) (simp add: assms)

lemma ask_question_None:
  assumes "py_index (length (players (game s))) (round_player_index s) = Some a"
    and "network s = x # rest"
    and "get_questions x (DEFAULT_DIFFICULTY (cls (players (game s) ! a))) 1 None ''multiple'' = (out, Inr None)"
  shows "ask_question s =
           next_player (s\<lparr>network := rest, stdout := stdout s @ out,
                           dialogs := dialogs s @ [ShowInfo ''Trivia Game'' fetch_error_text]\<rparr>)"
  by (subst ask_question.simps) (simp add: assms)

text \<open>Neither function touches the players: asking and advancing leave every score alone.\<close>

lemma keeps_players:
  "players (game (snd (ask_question s))) = players (game s)"
  "players (game (snd (next_player s))) = players (game s)"
proof (induction s and s rule: ask_question_next_player.induct)
  case (1 s)
  show ?case
    by (subst ask_question.simps)
      (use 1 in \<open>auto split: option.splits list.splits prod.splits sum.splits\<close>)
next
  case (2 s)
  show ?case
    by (subst next_player.simps) (use 2 in \<open>auto simp add: Let_def\<close>)
qed

lemma fetches_questionD:
  "fetches_question x d \<Longrightarrow> \<exists>out q. get_questions x d 1 None ''multiple'' = (out, Inr (Some q))"
  by (cases "get_questions x d 1 None ''multiple''")
    (auto simp add: fetches_question_def split: sum.splits option.splits)

subsection \<open>The turn step\<close>

lemma next_player_advance:
  "players (game s) \<noteq> [] \<Longrightarrow> next_player s = ask_question (advance s)"
  by (subst next_player.simps) (simp add: advance_def Let_def)

lemma advance_index:
  "round_player_index (advance s) = (round_player_index s + 1) mod int (length (players (game s)))"
  by (simp add: advance_def Let_def)

lemma advance_round:
  "round (game (advance s)) =
     (if round_player_index (advance s) = 0 then round (game s) + 1 else round (game s))"
  by (simp add: advance_def Let_def)

lemma advance_players: "players (game (advance s)) = players (game s)"
  by (simp add: advance_def Let_def)

lemma advance_other_fields:
  "network (advance s) = network s" "stdout (advance s) = stdout s"
  "dialogs (advance s) = dialogs s" "current_question (advance s) = current_question s"
  "option_vars (advance s) = option_vars s"
  by (simp_all add: advance_def Let_def)

text \<open>A call whose fetch succeeds is one step, and the new question on display.\<close>

lemma next_player_fetches:
  assumes ne: "players (game s) \<noteq> []"
    and net: "network s = x # rest"
    and ok: "fetches_question x
               (DEFAULT_DIFFICULTY (cls (players (game s) !
                  nat ((round_player_index s + 1) mod int (length (players (game s)))))))"
  shows "\<exists>out q. next_player s =
           (Returned, (advance s)\<lparr>current_question := Some q, option_vars := Some 0,
                                  network := rest, stdout := stdout s @ out\<rparr>)"
proof -
  define i where "i = (round_player_index s + 1) mod int (length (players (game s)))"
  have "0 < int (length (players (game s)))" using ne by simp
  then have i: "0 \<le> i" "i < int (length (players (game s)))" by (simp_all add: i_def)
  have idx: "py_index (length (players (game (advance s)))) (round_player_index (advance s)) = Some (nat i)"
    using i by (simp add: advance_players advance_index py_index_def i_def)
  from ok fetches_questionD obtain out q where
    "get_questions x (DEFAULT_DIFFICULTY (cls (players (game (advance s)) ! nat i))) 1 None ''multiple''
       = (out, Inr (Some q))"
    unfolding i_def advance_players by blast
  from ask_question_Some [OF idx _ this, of rest] net
  have "ask_question (advance s) =
          (Returned, (advance s)\<lparr>current_question := Some q, option_vars := Some 0,
                                 network := rest, stdout := stdout (advance s) @ out\<rparr>)"
    by (simp add: advance_other_fields)
  with next_player_advance [OF ne] show ?thesis
    by (auto simp add: advance_other_fields)
qed

lemma wrap_count:
  fixes i N :: int
  assumes "0 \<le> i" "i < N"
  shows "(if (i + 1) mod N = 0 then 1 else 0) + ((i + 1) mod N + n) div N = (i + 1 + n) div N"
proof (cases "i + 1 = N")
  case True
  with assms have "N \<noteq> 0" by simp
  then have "(N + n) div N = n div N + 1" by (rule div_add_self1)
  with True show ?thesis by simp
next
  case False
  with assms have "(i + 1) mod N = i + 1" by simp
  then show ?thesis using assms by simp
qed

text \<open>\<open>n\<close> steps from an index inside the list: the index and the number of wraps.\<close>

lemma advance_funpow:
  assumes "players (game s) \<noteq> []"
    and "0 \<le> round_player_index s" "round_player_index s < int (length (players (game s)))"
  shows "round_player_index ((advance ^^ n) s)
           = (round_player_index s + int n) mod int (length (players (game s)))
       \<and> round (game ((advance ^^ n) s))
           = round (game s) + (round_player_index s + int n) div int (length (players (game s)))
       \<and> players (game ((advance ^^ n) s)) = players (game s)"
  using assms
proof (induction n arbitrary: s)
  case 0
  then show ?case by simp
next
  case (Suc n)
  define N where "N = int (length (players (game s)))"
  define i where "i = round_player_index s"
  have N: "0 < N" using Suc.prems(1) by (simp add: N_def)
  have i: "0 \<le> i" "i < N" using Suc.prems(2,3) by (simp_all add: i_def N_def)
  have a: "round_player_index (advance s) = (i + 1) mod N"
    "round (game (advance s)) = round (game s) + (if (i + 1) mod N = 0 then 1 else 0)"
    "players (game (advance s)) = players (game s)"
    by (simp_all add: advance_index advance_round advance_players i_def N_def)
  have "players (game (advance s)) \<noteq> []" using a(3) Suc.prems(1) by simp
  moreover have "0 \<le> round_player_index (advance s)"
    "round_player_index (advance s) < int (length (players (game (advance s))))"
    using N by (simp_all add: a N_def [symmetric])
  ultimately have IH:
    "round_player_index ((advance ^^ n) (advance s)) = ((i + 1) mod N + int n) mod N"
    "round (game ((advance ^^ n) (advance s)))
       = round (game s) + (if (i + 1) mod N = 0 then 1 else 0) + ((i + 1) mod N + int n) div N"
    "players (game ((advance ^^ n) (advance s))) = players (game s)"
    using Suc.IH [of "advance s"] by (simp_all add: a N_def [symmetric])
  have swap: "(advance ^^ Suc n) s = (advance ^^ n) (advance s)"
    by (simp add: funpow_swap1)
  have idx: "((i + 1) mod N + int n) mod N = (i + int (Suc n)) mod N"
    by (simp add: mod_simps ac_simps)
  have "(if (i + 1) mod N = 0 then 1 else 0) + ((i + 1) mod N + int n) div N = (i + 1 + int n) div N"
    using i by (rule wrap_count)
  then have rnd: "round (game s) + (if (i + 1) mod N = 0 then 1 else 0) + ((i + 1) mod N + int n) div N
      = round (game s) + (i + int (Suc n)) div N"
    by (simp add: ac_simps)
  show ?case
    unfolding swap N_def [symmetric] i_def [symmetric]
    using IH idx rnd by simp
qed

subsection \<open>The states the game can reach\<close>

text \<open>
  The constructor starts at index 0, and asking, advancing and submitting keep the index
  inside the players list. The statements below take such a state.
\<close>

lemma index_stays_in_range:
  "index_in_range s \<Longrightarrow> index_in_range (snd (ask_question s))"
  "index_in_range s \<Longrightarrow> index_in_range (snd (next_player s))"
proof (induction s and s rule: ask_question_next_player.induct)
  case (1 s)
  show ?case
    by (subst ask_question.simps)
      (use 1 in \<open>auto simp add: index_in_range_def split: option.splits list.splits prod.splits sum.splits\<close>)
next
  case (2 s)
  from "2.prems" have N: "0 < int (length (players (game s)))"
    by (auto simp add: index_in_range_def)
  show ?case
    by (subst next_player.simps) (use 2 N in \<open>auto simp add: Let_def index_in_range_def\<close>)
qed

lemma submit_answer_index_in_range:
  "index_in_range s \<Longrightarrow> index_in_range (snd (submit_answer s))"
proof -
  assume s: "index_in_range s"
  have upd: "index_in_range (s\<lparr>dialogs := d, game := (game s)\<lparr>players := (players (game s))[a := p]\<rparr>\<rparr>)"
    "index_in_range (s\<lparr>dialogs := d\<rparr>)" for d a p
    using s by (simp_all add: index_in_range_def)
  show ?thesis
    using s upd index_stays_in_range(2)
    by (auto simp add: submit_answer_def split: option.splits)
qed

lemma TriviaGameGUI_index_in_range:
  "players g \<noteq> [] \<Longrightarrow> index_in_range (snd (TriviaGameGUI g net))"
  unfolding TriviaGameGUI_def
  by (rule index_stays_in_range(1)) (simp add: index_in_range_def)

text \<open>
  A question is on display with a selection in \<open>0..len(options)\<close> from the moment the
  constructor has asked the first question, and asking, advancing, clicking an option
  and submitting keep it so.
\<close>

lemma selection_offered_updates:
  "selection_offered (s\<lparr>network := n, stdout := out\<rparr>) = selection_offered s"
  "selection_offered (s\<lparr>network := n, stdout := out, dialogs := d\<rparr>) = selection_offered s"
  "selection_offered (s\<lparr>dialogs := d\<rparr>) = selection_offered s"
  "selection_offered (s\<lparr>dialogs := d, game := g\<rparr>) = selection_offered s"
  "selection_offered (s\<lparr>current_question := Some q, option_vars := Some 0,
                         network := n, stdout := out\<rparr>)"
  "selection_offered (s\<lparr>current_question := Some q, option_vars := Some 0\<rparr>)"
  "selection_offered (advance s) = selection_offered s"
  by (simp_all add: selection_offered_def advance_other_fields split: option.splits)

lemma ask_question_cases:
  obtains (no_player) "ask_question s = (Raised IndexError, s)"
  | (starved) "ask_question s = (Starved, s)"
  | (raised) e rest out where "ask_question s = (Raised e, s\<lparr>network := rest, stdout := stdout s @ out\<rparr>)"
  | (asked) q rest out where
      "ask_question s = (Returned, s\<lparr>current_question := Some q, option_vars := Some 0,
                                      network := rest, stdout := stdout s @ out\<rparr>)"
  | (skipped) a x rest out where
      "py_index (length (players (game s))) (round_player_index s) = Some a"
      "network s = x # rest"
      "(out, Inr None) = get_questions x (DEFAULT_DIFFICULTY (cls (players (game s) ! a))) 1 None ''multiple''"
      "ask_question s =
         next_player (s\<lparr>network := rest, stdout := stdout s @ out,
                         dialogs := dialogs s @ [ShowInfo ''Trivia Game'' fetch_error_text]\<rparr>)"
proof (cases "py_index (length (players (game s))) (round_player_index s)")
  case None
  then have "ask_question s = (Raised IndexError, s)"
    by (subst ask_question.simps) simp
  then show ?thesis by (rule no_player)
next
  case (Some a)
  show ?thesis
  proof (cases "network s")
    case Nil
    with Some have "ask_question s = (Starved, s)"
      by (subst ask_question.simps) simp
    then show ?thesis by (rule starved)
  next
    case (Cons x rest)
    obtain out r where g:
      "get_questions x (DEFAULT_DIFFICULTY (cls (players (game s) ! a))) 1 None ''multiple'' = (out, r)"
      by (cases "get_questions x (DEFAULT_DIFFICULTY (cls (players (game s) ! a))) 1 None ''multiple''")
    show ?thesis
    proof (cases r)
      case (Inl e)
      with Some Cons g have "ask_question s = (Raised e, s\<lparr>network := rest, stdout := stdout s @ out\<rparr>)"
        by (subst ask_question.simps) simp
      then show ?thesis by (rule raised)
    next
      case (Inr b)
      show ?thesis
      proof (cases b)
        case None
        with Some Cons g Inr have "ask_question s =
            next_player (s\<lparr>network := rest, stdout := stdout s @ out,
                            dialogs := dialogs s @ [ShowInfo ''Trivia Game'' fetch_error_text]\<rparr>)"
          by (subst ask_question.simps) simp
        with Some Cons g Inr None show ?thesis
          by (intro skipped [of a x rest out]) simp_all
      next
        case (Some q)
        with \<open>py_index (length (players (game s))) (round_player_index s) = Some a\<close> Cons g Inr
        have "ask_question s =
            (Returned, s\<lparr>current_question := Some q, option_vars := Some 0,
                          network := rest, stdout := stdout s @ out\<rparr>)"
          by (subst ask_question.simps) simp
        then show ?thesis by (rule asked)
      qed
    qed
  qed
qed

lemma selection_stays_offered_imp:
  "selection_offered s \<or> fst (ask_question s) = Returned \<longrightarrow> selection_offered (snd (ask_question s))"
  "selection_offered s \<or> fst (next_player s) = Returned \<longrightarrow> selection_offered (snd (next_player s))"
proof (induction s and s rule: ask_question_next_player.induct)
  case (1 s)
  show ?case
  proof (cases s rule: ask_question_cases)
    case no_player
    then show ?thesis by simp
  next
    case starved
    then show ?thesis by simp
  next
    case (raised e rest out)
    then show ?thesis by (simp add: selection_offered_updates)
  next
    case (asked q rest out)
    then show ?thesis by (simp add: selection_offered_updates)
  next
    case (skipped a x rest out)
    from "1.IH" [OF skipped(1,2,3) refl refl] skipped(4)
    show ?thesis by (simp add: selection_offered_updates)
  qed
next
  case (2 s)
  show ?case
  proof (cases "players (game s) = []")
    case True
    then have "next_player s = (Raised ZeroDivisionError, s)"
      by (subst next_player.simps) simp
    then show ?thesis by simp
  next
    case False
    then have "length (players (game s)) \<noteq> 0" by simp
    from "2.IH" [OF this refl refl]
    have "selection_offered (advance s) \<or> fst (ask_question (advance s)) = Returned
            \<longrightarrow> selection_offered (snd (ask_question (advance s)))"
      by (simp add: advance_def Let_def)
    with next_player_advance [OF False] show ?thesis
      by (simp add: selection_offered_updates)
  qed
qed

lemma selection_stays_offered:
  "selection_offered s \<or> fst (ask_question s) = Returned \<Longrightarrow> selection_offered (snd (ask_question s))"
  "selection_offered s \<or> fst (next_player s) = Returned \<Longrightarrow> selection_offered (snd (next_player s))"
  using selection_stays_offered_imp by blast+

lemma TriviaGameGUI_selection_offered:
  "fst (TriviaGameGUI g net) = Returned \<Longrightarrow> selection_offered (snd (TriviaGameGUI g net))"
  unfolding TriviaGameGUI_def by (rule selection_stays_offered(1)) simp

lemma select_option_invariants:
  "selection_offered s \<Longrightarrow> selection_offered (select_option s idx)"
  "index_in_range s \<Longrightarrow> index_in_range (select_option s idx)"
  by (auto simp add: select_option_def selection_offered_def index_in_range_def split: option.splits)

lemma submit_answer_selection_offered:
  assumes "selection_offered s"
  shows "selection_offered (snd (submit_answer s))"
proof -
  have upd: "selection_offered (s\<lparr>dialogs := d, game := g\<rparr>)" "selection_offered (s\<lparr>dialogs := d\<rparr>)" for d g
    using assms by (simp_all add: selection_offered_updates)
  show ?thesis
    using assms upd selection_stays_offered(2)
    by (auto simp add: submit_answer_def split: option.splits)
qed

text \<open>
  Every call changes the index and the round only through turn steps: \<^verbatim>\<open>ask_question\<close>
  ends some number of steps on, and \<^verbatim>\<open>next_player\<close> at least one step on, one more for
  each failed fetch.
\<close>

lemma advance_same_turn:
  "round_player_index s = round_player_index t \<Longrightarrow> game s = game t \<Longrightarrow>
   round_player_index ((advance ^^ m) s) = round_player_index ((advance ^^ m) t) \<and>
   game ((advance ^^ m) s) = game ((advance ^^ m) t)"
  by (induction m) (simp_all add: advance_def Let_def)

lemma calls_are_steps:
  "\<exists>m. round_player_index (snd (ask_question s)) = round_player_index ((advance ^^ m) s) \<and>
        game (snd (ask_question s)) = game ((advance ^^ m) s)"
  "\<exists>m. (players (game s) \<noteq> [] \<longrightarrow> 1 \<le> m) \<and>
        round_player_index (snd (next_player s)) = round_player_index ((advance ^^ m) s) \<and>
        game (snd (next_player s)) = game ((advance ^^ m) s)"
proof (induction s and s rule: ask_question_next_player.induct)
  case (1 s)
  have zero: "round_player_index t = round_player_index s \<Longrightarrow> game t = game s \<Longrightarrow>
      round_player_index t = round_player_index ((advance ^^ 0) s) \<and> game t = game ((advance ^^ 0) s)" for t
    by simp
  show ?case
  proof (cases s rule: ask_question_cases)
    case no_player
    then show ?thesis using zero [of s] by (intro exI [of _ 0]) simp
  next
    case starved
    then show ?thesis using zero [of s] by (intro exI [of _ 0]) simp
  next
    case (raised e rest out)
    then show ?thesis by (intro exI [of _ 0]) simp
  next
    case (asked q rest out)
    then show ?thesis by (intro exI [of _ 0]) simp
  next
    case (skipped a x rest out)
    define t where "t = s\<lparr>network := rest, stdout := stdout s @ out,
                         dialogs := dialogs s @ [ShowInfo ''Trivia Game'' fetch_error_text]\<rparr>"
    from "1.IH" [OF skipped(1,2,3) refl refl] obtain m where
      "round_player_index (snd (next_player t)) = round_player_index ((advance ^^ m) t)"
      "game (snd (next_player t)) = game ((advance ^^ m) t)"
      unfolding t_def by blast
    moreover have "round_player_index ((advance ^^ m) t) = round_player_index ((advance ^^ m) s) \<and>
        game ((advance ^^ m) t) = game ((advance ^^ m) s)"
      by (rule advance_same_turn) (simp_all add: t_def)
    ultimately show ?thesis
      using skipped(4) by (intro exI [of _ m]) (simp add: t_def)
  qed
next
  case (2 s)
  show ?case
  proof (cases "players (game s) = []")
    case True
    then have "next_player s = (Raised ZeroDivisionError, s)"
      by (subst next_player.simps) simp
    with True show ?thesis by (intro exI [of _ 0]) simp
  next
    case False
    then have "length (players (game s)) \<noteq> 0" by simp
    from "2.IH" [OF this refl refl] obtain m where
      "round_player_index (snd (ask_question (advance s))) = round_player_index ((advance ^^ m) (advance s))"
      "game (snd (ask_question (advance s))) = game ((advance ^^ m) (advance s))"
      unfolding advance_def Let_def by blast
    then show ?thesis
      using next_player_advance [OF False]
      by (intro exI [of _ "Suc m"]) (simp add: funpow_swap1)
  qed
qed

subsection \<open>Advancing\<close>

lemma get_questions_answering:
  "get_questions answering d 1 None ''multiple'' = ([], Inr (Some sample_question))"
  by (simp add: get_questions_def try_block_def answering_def from_api_response_def
      sample_record_def sample_question_def shuffle_zero4)

lemma get_questions_refusing:
  "get_questions refusing d 1 None ''multiple''
     = ([Print ''Error fetching questions: '' (RequestException ''connection refused'')], Inr None)"
  by (simp add: get_questions_def try_block_def refusing_def)

lemma full_round:
  fixes i N :: int
  assumes "0 \<le> i" "i < N"
  shows "(i + N) mod N = i" and "(i + N) div N = 1"
proof -
  from assms have "N \<noteq> 0" by simp
  then have "(i + N) div N = i div N + 1" by (rule div_add_self2)
  with assms show "(i + N) div N = 1" by simp
  from assms show "(i + N) mod N = i" by simp
qed

text \<open>
  Claim C2. For every state with a non-empty list of \<open>N\<close> players: \<^verbatim>\<open>next_player\<close> is the
  turn step \<open>advance\<close> followed by \<^verbatim>\<open>ask_question\<close>; one step sets the index to
  \<open>(index + 1) mod N\<close> and raises the round by one exactly when the new index is 0. From
  an index in \<open>0..N-1\<close>, \<open>N\<close> steps in a row bring the index back and raise the round by
  exactly 1; with three players, seven steps from index 0 and round 1 end at index 1
  and round 3. Nothing is assumed about the network.
\<close>

theorem advance_round_robin:
  assumes "players (game s) \<noteq> []"
  shows "next_player s = ask_question (advance s)
       \<and> round_player_index (advance s) = (round_player_index s + 1) mod int (length (players (game s)))
       \<and> round (game (advance s)) =
           (if round_player_index (advance s) = 0 then round (game s) + 1 else round (game s))
       \<and> (0 \<le> round_player_index s \<and> round_player_index s < int (length (players (game s))) \<longrightarrow>
            round_player_index ((advance ^^ length (players (game s))) s) = round_player_index s \<and>
            round (game ((advance ^^ length (players (game s))) s)) = round (game s) + 1)
       \<and> (length (players (game s)) = 3 \<and> round_player_index s = 0 \<and> round (game s) = 1 \<longrightarrow>
            round_player_index ((advance ^^ 7) s) = 1 \<and> round (game ((advance ^^ 7) s)) = 3)"
proof (intro conjI impI)
  show "next_player s = ask_question (advance s)"
    using assms by (rule next_player_advance)
  show "round_player_index (advance s) = (round_player_index s + 1) mod int (length (players (game s)))"
    by (rule advance_index)
  show "round (game (advance s)) =
          (if round_player_index (advance s) = 0 then round (game s) + 1 else round (game s))"
    by (rule advance_round)
next
  assume r: "0 \<le> round_player_index s \<and> round_player_index s < int (length (players (game s)))"
  define N where "N = length (players (game s))"
  from r have steps:
    "round_player_index ((advance ^^ N) s) = (round_player_index s + int N) mod int N"
    "round (game ((advance ^^ N) s)) = round (game s) + (round_player_index s + int N) div int N"
    using advance_funpow [OF assms, of N] by (simp_all add: N_def)
  from r have "(round_player_index s + int N) mod int N = round_player_index s"
    and "(round_player_index s + int N) div int N = 1"
    using full_round [of "round_player_index s" "int N"] by (simp_all add: N_def)
  with steps show "round_player_index ((advance ^^ N) s) = round_player_index s"
    and "round (game ((advance ^^ N) s)) = round (game s) + 1"
    by simp_all
next
  assume three: "length (players (game s)) = 3 \<and> round_player_index s = 0 \<and> round (game s) = 1"
  then have "0 \<le> round_player_index s" "round_player_index s < int (length (players (game s)))"
    by simp_all
  from advance_funpow [OF assms this, of 7] three
  show "round_player_index ((advance ^^ 7) s) = 1" and "round (game ((advance ^^ 7) s)) = 3"
    by simp_all
qed

theorem advance_round_robin_witness:
  "next_player (three_players 0 [refusing, answering])
     = ask_question (advance (three_players 0 [refusing, answering]))
   \<and> round_player_index (advance (three_players 0 [refusing, answering])) = 1
   \<and> round (game (advance (three_players 0 [refusing, answering]))) = 1
   \<and> round_player_index ((advance ^^ 3) (three_players 0 [refusing, answering])) = 0
   \<and> round (game ((advance ^^ 3) (three_players 0 [refusing, answering]))) = 2
   \<and> round_player_index ((advance ^^ 7) (three_players 0 [refusing, answering])) = 1
   \<and> round (game ((advance ^^ 7) (three_players 0 [refusing, answering]))) = 3"
proof -
  let ?s = "three_players 0 [refusing, answering]"
  have ne: "players (game ?s) \<noteq> []"
    by (simp add: three_players_def)
  have facts: "length (players (game ?s)) = 3" "round_player_index ?s = 0" "round (game ?s) = 1"
    by (simp_all add: three_players_def)
  from advance_round_robin [OF ne] facts show ?thesis
    by simp
qed

text \<open>
  A failed fetch skips a player: the call of \<^verbatim>\<open>next_player\<close> below meets a refused
  connection, calls itself once more, and returns two steps on.
\<close>

lemma next_player_skip_is_two_steps:
  "fst (next_player (three_players 0 [refusing, answering])) = Returned
   \<and> round_player_index (snd (next_player (three_players 0 [refusing, answering])))
       = round_player_index ((advance ^^ 2) (three_players 0 [refusing, answering]))
   \<and> round (game (snd (next_player (three_players 0 [refusing, answering]))))
       = round (game ((advance ^^ 2) (three_players 0 [refusing, answering])))"
  by (simp add: three_players_def next_player.simps ask_question.simps py_index_def
      get_questions_answering get_questions_refusing advance_def numeral_2_eq_2)

subsection \<open>Submitting an answer\<close>

lemma py_index_in_range: "0 \<le> i \<Longrightarrow> i < int n \<Longrightarrow> py_index n i = Some (nat i)"
  by (simp add: py_index_def)




text \<open>
  Claim C7. In a state whose player index is in range, with a question on display and a
  selection \<open>k\<close> in \<open>1..len(options)\<close>: if the option at position \<open>k\<close> is the correct
  answer, the players after \<^verbatim>\<open>submit_answer\<close> are the players before with the current
  player's score raised by 1 and nothing else changed; if it is not, the players are
  unchanged. This holds however the fetch of the next question goes.
\<close>

theorem submit_answer_scores:
  assumes "0 \<le> round_player_index s" and "round_player_index s < int (length (players (game s)))"
    and "current_question s = Some q" and "option_vars s = Some k"
    and "1 \<le> k" and "k \<le> int (length (options q))"
  shows "(options q ! nat (k - 1) = correct_answer q \<longrightarrow>
           players (game (snd (submit_answer s))) =
             (players (game s))[nat (round_player_index s) :=
                (players (game s) ! nat (round_player_index s))
                  \<lparr>score := score (players (game s) ! nat (round_player_index s)) + 1\<rparr>])
       \<and> (options q ! nat (k - 1) \<noteq> correct_answer q \<longrightarrow>
           players (game (snd (submit_answer s))) = players (game s))"
proof -
  have a: "py_index (length (players (game s))) (round_player_index s) = Some (nat (round_player_index s))"
    using assms(1,2) by (rule py_index_in_range)
  have c: "py_index (length (options q)) (k - 1) = Some (nat (k - 1))"
    using assms(5,6) by (intro py_index_in_range) auto
  have k: "k \<noteq> 0" using assms(5) by simp
  show ?thesis
  proof (intro conjI impI)
    assume "options q ! nat (k - 1) = correct_answer q"
    then show "players (game (snd (submit_answer s))) =
             (players (game s))[nat (round_player_index s) :=
                (players (game s) ! nat (round_player_index s))
                  \<lparr>score := score (players (game s) ! nat (round_player_index s)) + 1\<rparr>]"
      using a c k assms(3,4) by (simp add: submit_answer_def keeps_players(2) add_score_def)
  next
    assume "options q ! nat (k - 1) \<noteq> correct_answer q"
    then show "players (game (snd (submit_answer s))) = players (game s)"
      using a c k assms(3,4)
      by (simp add: submit_answer_def keeps_players(2) split: option.splits)
  qed
qed

theorem submit_answer_scores_witness:
  "map score (players (game (snd (submit_answer (three_players 3 [answering]))))) = [1, 0, 0]
   \<and> map score (players (game (snd (submit_answer (three_players 1 [answering]))))) = [0, 0, 0]"
proof -
  have a: "0 \<le> round_player_index (three_players k [answering])"
    "round_player_index (three_players k [answering]) < int (length (players (game (three_players k [answering]))))"
    "current_question (three_players k [answering]) = Some sample_question"
    "option_vars (three_players k [answering]) = Some k"
    for k by (simp_all add: three_players_def)
  have k3: "1 \<le> (3::int)" "3 \<le> int (length (options sample_question))"
    and k1: "1 \<le> (1::int)" "1 \<le> int (length (options sample_question))"
    by (simp_all add: sample_question_def)
  from submit_answer_scores [OF a k3] submit_answer_scores [OF a k1]
  show ?thesis
    by (simp add: sample_question_def three_players_def AdultPlayer_def ChildPlayer_def)
qed

end
